theory Spec2Isabelle
  imports Main "HOL-Library.AList"
begin

section \<open>IRQ counter snapshots\<close>

text \<open>
  The command \<^verbatim>\<open>knit irqwatch\<close> (\<^verbatim>\<open>cmd/knit/cmd/irqwatch.go\<close>) polls the
  kernel's interrupt counters and prints what changed. A snapshot \<^verbatim>\<open>irqs.Stats\<close> is a
  Go map from CPU id to a map from interrupt name to a cumulative count. Go maps are
  embedded as association lists read with \<open>map_of\<close>: \<^verbatim>\<open>m[k]\<close> is \<open>map_of m k\<close>,
  \<^verbatim>\<open>m[k] = v\<close> is \<open>AList.update k v m\<close>, and the order of the list stands for
  one order in which \<^verbatim>\<open>range\<close> may enumerate the map. The nil map is \<open>[]\<close>.
\<close>

type_synonym Counter = "(string \<times> nat) list"

type_synonym Stats = "(nat \<times> Counter) list"

text \<open>Points in time and durations, in nanoseconds.\<close>

type_synonym time = int

text \<open>A Go \<^verbatim>\<open>error\<close> value, with its message.\<close>

datatype error = Error string

subsection \<open>The delta engine\<close>

text \<open>
  Modelled from the spec: the package \<^verbatim>\<open>pkg/irqs\<close> (the type \<^verbatim>\<open>Stats\<close> with its
  methods \<^verbatim>\<open>Delta\<close> and \<^verbatim>\<open>Clone\<close>, and the reader \<^verbatim>\<open>ReadStats\<close>) is not among the
  sources. The spec's contract for the delta of one CPU: for each interrupt label of the
  later counter that the earlier counter has too, the later count minus the earlier count,
  clamped at 0 when the raw difference is negative; a label the earlier counter lacks is
  left out.
\<close>

definition counterDelta :: "Counter \<Rightarrow> Counter \<Rightarrow> Counter" where
  "counterDelta earlier later =
     List.map_filter
       (\<lambda>(irqName, lv).
          case map_of earlier irqName of
            None \<Rightarrow> None
          | Some ev \<Rightarrow> Some (irqName, if lv < ev then 0 else lv - ev))
       later"

text \<open>
  Modelled from the spec: \<^verbatim>\<open>Delta(earlier, later)\<close> visits each CPU present in the later
  snapshot; a CPU the earlier snapshot lacks has no label in common with it. The source
  calls it as \<^verbatim>\<open>prevStats.Delta(lastStats)\<close>: the receiver is the earlier snapshot.
\<close>

definition Delta :: "Stats \<Rightarrow> Stats \<Rightarrow> Stats" where
  "Delta earlier later =
     map (\<lambda>(cpuid, lc).
            (cpuid, counterDelta (case map_of earlier cpuid of None \<Rightarrow> [] | Some ec \<Rightarrow> ec) lc))
         later"

text \<open>
  Modelled from the spec: \<^verbatim>\<open>Clone\<close> is not among the sources either. Snapshots are
  immutable once read and exchanged by value, so the copy is the same snapshot value.
\<close>

definition Clone :: "Stats \<Rightarrow> Stats" where
  "Clone s = map (\<lambda>(cpuid, c). (cpuid, map (\<lambda>(irqName, val). (irqName, val)) c)) s"

section \<open>Presenters\<close>

text \<open>
  \<^verbatim>\<open>knitOptions\<close> (\<^verbatim>\<open>root.go\<close>): of its fields the watch command reads
  \<^verbatim>\<open>cpus\<close>, here the slice that \<^verbatim>\<open>cpus.ToSlice()\<close> returns, and \<^verbatim>\<open>jsonOutput\<close>;
  \<^verbatim>\<open>log\<close> and \<^verbatim>\<open>procFSRoot\<close> only configure the counter reader, whose results
  are part of the environment below.
\<close>

record knitOptions =
  cpus :: "nat list"
  jsonOutput :: bool

text \<open>\<^verbatim>\<open>irqWatchOptions\<close>; the two numbers are Go \<^verbatim>\<open>int\<close> flags.\<close>

record irqWatchOptions =
  period :: string
  maxRuns :: int
  verbose :: int

text \<open>
  What one call of a presenter writes to standard output. A text presenter prints one
  line per listed triple (CPU, interrupt name, count), a per-tick line starting with the
  tick's timestamp; the text summary prints its header (the CPU set and the elapsed time)
  first. A per-tick text record that lists no triple is a call that printed no line.
  A JSON presenter encodes one object: \<^verbatim>\<open>irqDelta\<close> with its fields
  \<^verbatim>\<open>timestamp\<close> and \<^verbatim>\<open>counters\<close>, or \<^verbatim>\<open>irqSummary\<close> with \<^verbatim>\<open>elapsed\<close> and
  \<^verbatim>\<open>counters\<close>.
\<close>

datatype emitted =
    TextDelta time "(nat \<times> string \<times> nat) list"
  | TextSummary "nat list" time "(nat \<times> string \<times> nat) list"
  | JSONDelta time Stats
  | JSONSummary time Stats

definition dumpIrqDeltaText :: "time \<Rightarrow> Stats \<Rightarrow> Stats \<Rightarrow> nat list \<Rightarrow> emitted" where
  "dumpIrqDeltaText ts prevStats lastStats cpuset =
     (let delta = Delta prevStats lastStats;
          cpuids = cpuset
      in TextDelta ts
           (concat (map (\<lambda>cpuid.
              case map_of delta cpuid of
                None \<Rightarrow> []
              | Some counter \<Rightarrow>
                  map (\<lambda>(irqName, val). (cpuid, irqName, val))
                      (filter (\<lambda>(irqName, val). \<not> val = 0) counter))
            cpuids)))"

text \<open>The summary takes the reading of \<^verbatim>\<open>time.Now()\<close> as its first argument.\<close>

definition dumpIrqSummaryText :: "time \<Rightarrow> time \<Rightarrow> Stats \<Rightarrow> Stats \<Rightarrow> nat list \<Rightarrow> emitted" where
  "dumpIrqSummaryText now initTs prevStats lastStats cpuset =
     (let timeDelta = now - initTs;
          delta = Delta prevStats lastStats;
          cpuids = cpuset
      in TextSummary cpuset timeDelta
           (concat (map (\<lambda>cpuid.
              case map_of delta cpuid of
                None \<Rightarrow> []
              | Some counter \<Rightarrow>
                  map (\<lambda>(irqName, val). (cpuid, irqName, val))
                      (filter (\<lambda>(irqName, val). \<not> val = 0) counter))
            cpuids)))"

definition countersForCPUs :: "nat list \<Rightarrow> Stats \<Rightarrow> Stats" where
  "countersForCPUs cpuset stats =
     (let cpuids = cpuset
      in fold (\<lambda>cpuid res.
                 case map_of stats cpuid of
                   None \<Rightarrow> res
                 | Some counter \<Rightarrow>
                     if length counter = 0 then res else AList.update cpuid counter res)
              cpuids [])"

definition dumpIrqDeltaJSON :: "time \<Rightarrow> Stats \<Rightarrow> Stats \<Rightarrow> nat list \<Rightarrow> emitted" where
  "dumpIrqDeltaJSON ts prevStats lastStats cpuset =
     JSONDelta ts (countersForCPUs cpuset (Delta prevStats lastStats))"

definition dumpIrqSummaryJSON :: "time \<Rightarrow> time \<Rightarrow> Stats \<Rightarrow> Stats \<Rightarrow> nat list \<Rightarrow> emitted" where
  "dumpIrqSummaryJSON now initTs prevStats lastStats cpuset =
     JSONSummary (now - initTs) (countersForCPUs cpuset (Delta prevStats lastStats))"

fun isDelta :: "emitted \<Rightarrow> bool" where
  "isDelta (TextDelta ts ls) = True"
| "isDelta (JSONDelta ts st) = True"
| "isDelta x = False"

fun isSummary :: "emitted \<Rightarrow> bool" where
  "isSummary (TextSummary cs d ls) = True"
| "isSummary (JSONSummary d st) = True"
| "isSummary x = False"

text \<open>The counts a record shows, as triples (CPU, interrupt name, count).\<close>

definition statsEntries :: "Stats \<Rightarrow> (nat \<times> string \<times> nat) list" where
  "statsEntries st =
     concat (map (\<lambda>(cpuid, counter). map (\<lambda>(irqName, val). (cpuid, irqName, val)) counter) st)"

fun shownCounts :: "emitted \<Rightarrow> (nat \<times> string \<times> nat) list" where
  "shownCounts (TextDelta ts ls) = ls"
| "shownCounts (TextSummary cs d ls) = ls"
| "shownCounts (JSONDelta ts st) = statsEntries st"
| "shownCounts (JSONSummary d st) = statsEntries st"

section \<open>The sampling loop\<close>

text \<open>
  The environment of one run. \<open>parseDuration\<close> is \<^verbatim>\<open>time.ParseDuration\<close>;
  \<open>clockInit\<close> is \<^verbatim>\<open>time.Now()\<close> before the first read and \<open>clockEnd\<close> its reading
  inside the summary; \<open>readInit\<close> is what the first \<^verbatim>\<open>ih.ReadStats()\<close> returns.
  \<open>events\<close> is what the \<^verbatim>\<open>select\<close> of the loop receives, in order: an interrupt
  signal on the channel \<^verbatim>\<open>c\<close>, or a tick of the ticker with its time and with what
  \<^verbatim>\<open>ih.ReadStats()\<close> returns when called at that tick. When the events are used up the
  loop is blocked in \<^verbatim>\<open>select\<close>: a run over a finite list is a run observed up to
  that point.
\<close>

datatype event = Signal | TickEv time "error + Stats"

record world =
  parseDuration :: "string \<Rightarrow> error + int"
  clockInit :: time
  readInit :: "error + Stats"
  events :: "event list"
  clockEnd :: time

text \<open>
  The local variables of \<^verbatim>\<open>watchIRQs\<close> that the loop reads and writes, the records
  written to standard output so far (\<open>out\<close>) and the number of calls of
  \<^verbatim>\<open>ReadStats\<close> so far (\<open>reads\<close>).
\<close>

record loopState =
  initStats :: Stats
  prevStats :: Stats
  lastStats :: Stats
  doneFlag :: bool
  iterCount :: int
  out :: "emitted list"
  reads :: nat

text \<open>\<^verbatim>\<open>iterCount++\<close> on a 64-bit Go \<^verbatim>\<open>int\<close> wraps around.\<close>

definition wrap64 :: "int \<Rightarrow> int" where
  "wrap64 x = (x + 2 ^ 63) mod 2 ^ 64 - 2 ^ 63"

text \<open>
  One \<^verbatim>\<open>select\<close>: the signal sets \<^verbatim>\<open>done\<close>; a tick reads the counters, returns the
  error of a failed read, and otherwise prints the delta when \<^verbatim>\<open>verbose >= 2\<close> and
  makes the new snapshot the previous one.
\<close>

fun selectCase ::
  "knitOptions \<Rightarrow> irqWatchOptions \<Rightarrow> event \<Rightarrow> loopState \<Rightarrow> (error \<times> loopState) + loopState" where
  "selectCase k opts Signal s = Inr (s\<lparr>doneFlag := True\<rparr>)"
| "selectCase k opts (TickEv t (Inl err)) s = Inl (err, s\<lparr>reads := reads s + 1\<rparr>)"
| "selectCase k opts (TickEv t (Inr st)) s =
     (let s1 = s\<lparr>lastStats := st, reads := reads s + 1\<rparr>;
          s2 = (if verbose opts \<ge> 2 then
                  (if jsonOutput k
                   then s1\<lparr>out := out s1 @ [dumpIrqDeltaJSON t (prevStats s1) (lastStats s1) (cpus k)]\<rparr>
                   else s1\<lparr>out := out s1 @ [dumpIrqDeltaText t (prevStats s1) (lastStats s1) (cpus k)]\<rparr>)
                else s1)
      in Inr (s2\<lparr>prevStats := lastStats s2\<rparr>))"

text \<open>
  How the loop is left: by \<^verbatim>\<open>break\<close>, by \<^verbatim>\<open>return err\<close>, or not yet (blocked in
  \<^verbatim>\<open>select\<close>, the events used up).
\<close>

datatype loopExit = Break | Abort error | Pending

fun watchLoop ::
  "knitOptions \<Rightarrow> irqWatchOptions \<Rightarrow> event list \<Rightarrow> loopState \<Rightarrow> loopExit \<times> loopState" where
  "watchLoop k opts [] s = (Pending, s)"
| "watchLoop k opts (ev # evs) s =
     (case selectCase k opts ev s of
        Inl (err, s') \<Rightarrow> (Abort err, s')
      | Inr s' \<Rightarrow>
          if doneFlag s' then (Break, s')
          else if maxRuns opts > 0 \<and> iterCount s' \<ge> maxRuns opts then (Break, s')
          else watchLoop k opts evs (s'\<lparr>iterCount := wrap64 (iterCount s' + 1)\<rparr>))"

text \<open>
  What a run has done when it is observed: returned \<^verbatim>\<open>nil\<close> or an error, panicked
  (\<^verbatim>\<open>time.NewTicker\<close> panics on a period that is not positive), or is still waiting in
  the loop; with the records written and the number of \<^verbatim>\<open>ReadStats\<close> calls made.
\<close>

datatype outcome = Returned "error option" | Panicked | Waiting

record result =
  ret :: outcome
  stdout :: "emitted list"
  readCalls :: nat

text \<open>The state in which the loop is entered, after the first read returned \<open>st\<close>.\<close>

definition startState :: "Stats \<Rightarrow> loopState" where
  "startState st =
     \<lparr>initStats = st, prevStats = Clone st, lastStats = [], doneFlag = False,
      iterCount = 1, out = [], reads = 1\<rparr>"

definition watchIRQs :: "world \<Rightarrow> knitOptions \<Rightarrow> irqWatchOptions \<Rightarrow> result" where
  "watchIRQs w k opts =
     (if maxRuns opts = 0 then \<lparr>ret = Returned None, stdout = [], readCalls = 0\<rparr>
      else
        case parseDuration w (period opts) of
          Inl err \<Rightarrow> \<lparr>ret = Returned (Some err), stdout = [], readCalls = 0\<rparr>
        | Inr per \<Rightarrow>
            (case readInit w of
               Inl err \<Rightarrow> \<lparr>ret = Returned (Some err), stdout = [], readCalls = 1\<rparr>
             | Inr st \<Rightarrow>
                 if per \<le> 0 then \<lparr>ret = Panicked, stdout = [], readCalls = 1\<rparr>
                 else
                   (case watchLoop k opts (events w) (startState st) of
                      (Pending, s) \<Rightarrow> \<lparr>ret = Waiting, stdout = out s, readCalls = reads s\<rparr>
                    | (Abort err, s) \<Rightarrow>
                        \<lparr>ret = Returned (Some err), stdout = out s, readCalls = reads s\<rparr>
                    | (Break, s) \<Rightarrow>
                        \<lparr>ret = Returned None,
                         stdout =
                           (if verbose opts \<ge> 1 then
                              (if jsonOutput k
                               then out s @ [dumpIrqSummaryJSON (clockEnd w) (clockInit w)
                                               (initStats s) (lastStats s) (cpus k)]
                               else out s @ [dumpIrqSummaryText (clockEnd w) (clockInit w)
                                               (initStats s) (lastStats s) (cpus k)])
                            else out s),
                         readCalls = reads s\<rparr>)))"

text \<open>
  An instance of \<^verbatim>\<open>time.ParseDuration\<close> for the examples: on the strings it accepts it
  agrees with Go (\<^verbatim>\<open>"1s"\<close> is 1000000000 ns, \<^verbatim>\<open>"500ms"\<close> is 500000000 ns), and like
  Go it rejects \<^verbatim>\<open>"bogus"\<close>, reporting \<^verbatim>\<open>time: invalid duration "bogus"\<close> (the
  string in double quotes, the character \<open>CHR 0x22\<close>).
\<close>

definition parseDurationSample :: "string \<Rightarrow> error + int" where
  "parseDurationSample s =
     (if s = ''1s'' then Inr 1000000000
      else if s = ''500ms'' then Inr 500000000
      else Inl (Error (''time: invalid duration '' @ CHR 0x22 # s @ [CHR 0x22])))"

text \<open>Whether the loop was left by \<^verbatim>\<open>return err\<close>.\<close>

fun isAbort :: "loopExit \<Rightarrow> bool" where
  "isAbort (Abort e) = True"
| "isAbort x = False"

subsection \<open>What is printed\<close>







subsection \<open>Example runs\<close>

text \<open>
  One CPU, one interrupt line \<^verbatim>\<open>16\<close> that has been served 10 times at the first
  read; the run starts at time 0 and its summary is made at time 5.
\<close>

definition exampleBaseline :: Stats where
  "exampleBaseline = [(0, [(''16'', 10)])]"

definition exampleWorld :: "event list \<Rightarrow> world" where
  "exampleWorld es =
     \<lparr>parseDuration = parseDurationSample, clockInit = 0, readInit = Inr exampleBaseline,
      events = es, clockEnd = 5\<rparr>"

definition exampleKnit :: "bool \<Rightarrow> knitOptions" where
  "exampleKnit json = \<lparr>cpus = [0], jsonOutput = json\<rparr>"

text \<open>A tick whose read of the counters succeeds.\<close>

fun goodTick :: "event \<Rightarrow> bool" where
  "goodTick (TickEv t (Inr st)) = True"
| "goodTick ev = False"

text \<open>Three ticks with successful reads.\<close>

definition exampleTicks :: "event list" where
  "exampleTicks =
     [TickEv 1 (Inr [(0, [(''16'', 12)])]), TickEv 2 (Inr [(0, [(''16'', 12)])]),
      TickEv 3 (Inr [(0, [(''16'', 15)])])]"

section \<open>Properties of the delta engine\<close>

lemma map_of_counterDelta:
  "map_of (counterDelta earlier later) irqName =
     (case map_of later irqName of
        None \<Rightarrow> None
      | Some lv \<Rightarrow>
          (case map_of earlier irqName of
             None \<Rightarrow> None
           | Some ev \<Rightarrow> Some (if lv < ev then 0 else lv - ev)))"
  by (induction later)
     (auto simp: counterDelta_def split: option.splits)

lemma map_of_Delta:
  "map_of (Delta earlier later) cpuid =
     map_option
       (counterDelta (case map_of earlier cpuid of None \<Rightarrow> [] | Some ec \<Rightarrow> ec))
       (map_of later cpuid)"
  by (induction later) (auto simp: Delta_def)

lemma Clone_id: "Clone s = s"
  by (simp add: Clone_def case_prod_unfold)

text \<open>
  Claim C8. For two snapshots and an entry (cpu, irq) present in both, a count that went
  down from the earlier to the later snapshot is reported by Delta as exactly 0 for that
  entry.
\<close>

theorem Delta_decrease_is_zero:
  assumes "map_of earlier cpuid = Some ec" and "map_of ec irqName = Some ev"
    and "map_of later cpuid = Some lc" and "map_of lc irqName = Some lv"
    and "lv < ev"
  shows "\<exists>dc. map_of (Delta earlier later) cpuid = Some dc \<and> map_of dc irqName = Some 0"
  using assms by (simp add: map_of_Delta map_of_counterDelta)

theorem Delta_decrease_is_zero_witness:
  "map_of [(0::nat, [(''16'', 100::nat)])] 0 = Some [(''16'', 100)]
   \<and> map_of [(''16'', 100::nat)] ''16'' = Some 100
   \<and> map_of [(0::nat, [(''16'', 3::nat)])] 0 = Some [(''16'', 3)]
   \<and> map_of [(''16'', 3::nat)] ''16'' = Some 3
   \<and> (3::nat) < 100
   \<and> (\<exists>dc. map_of (Delta [(0, [(''16'', 100)])] [(0, [(''16'', 3)])]) 0 = Some dc
           \<and> map_of dc ''16'' = Some 0)"
  using Delta_decrease_is_zero
          [of "[(0, [(''16'', 100)])]" 0 "[(''16'', 100)]" "''16''" 100
              "[(0, [(''16'', 3)])]" "[(''16'', 3)]" 3]
  by simp

section \<open>Properties of the sampling loop\<close>


lemma selectCase_Inr_initStats:
  "selectCase k opts ev s = Inr s' \<Longrightarrow> initStats s' = initStats s"
  by (induction k opts ev s rule: selectCase.induct) (auto simp: Let_def split: if_splits)

lemma selectCase_Inl_initStats:
  "selectCase k opts ev s = Inl (err, s') \<Longrightarrow> initStats s' = initStats s"
  by (induction k opts ev s rule: selectCase.induct) (auto simp: Let_def split: if_splits)

lemma selectCase_Inr_iterCount:
  "selectCase k opts ev s = Inr s' \<Longrightarrow> iterCount s' = iterCount s"
  by (induction k opts ev s rule: selectCase.induct) (auto simp: Let_def split: if_splits)

lemma watchLoop_initStats:
  "initStats (snd (watchLoop k opts es s)) = initStats s"
proof (induction es arbitrary: s)
  case Nil
  show ?case by simp
next
  case (Cons ev es)
  show ?case
  proof (cases "selectCase k opts ev s")
    case (Inl p)
    obtain err s' where p: "p = (err, s')" by (cases p)
    with Inl show ?thesis by (simp add: selectCase_Inl_initStats)
  next
    case (Inr s')
    then show ?thesis
      by (simp add: Cons.IH selectCase_Inr_initStats)
  qed
qed

lemma watchLoop_append:
  "fst (watchLoop k opts pre s) = Pending \<Longrightarrow>
   watchLoop k opts (pre @ rest) s = watchLoop k opts rest (snd (watchLoop k opts pre s))"
proof (induction pre arbitrary: s)
  case Nil
  show ?case by simp
next
  case (Cons ev pre)
  show ?case
  proof (cases "selectCase k opts ev s")
    case (Inl p)
    with Cons.prems show ?thesis by (simp split: prod.splits)
  next
    case (Inr s')
    with Cons.prems show ?thesis by (auto simp: Cons.IH split: if_splits)
  qed
qed


lemma isDelta_not_isSummary: "isDelta x \<Longrightarrow> \<not> isSummary x"
  by (cases x) simp_all

lemma isDelta_dumps [simp]:
  "isDelta (dumpIrqDeltaJSON t p l c)" "isDelta (dumpIrqDeltaText t p l c)"
  by (simp_all add: dumpIrqDeltaJSON_def dumpIrqDeltaText_def)

lemma isSummary_dumps [simp]:
  "isSummary (dumpIrqSummaryJSON n t p l c)" "isSummary (dumpIrqSummaryText n t p l c)"
  by (simp_all add: dumpIrqSummaryJSON_def dumpIrqSummaryText_def)

lemma selectCase_Inr_out:
  assumes "selectCase k opts ev s = Inr s'"
  shows "\<exists>ds. out s' = out s @ ds \<and> list_all isDelta ds \<and> reads s \<le> reads s'
            \<and> length ds = (if verbose opts \<ge> 2 then reads s' - reads s else 0)"
  using assms
  by (induction k opts ev s rule: selectCase.induct) (auto simp: Let_def split: if_splits)

lemma selectCase_Inl_out:
  "selectCase k opts ev s = Inl (err, s') \<Longrightarrow> out s' = out s \<and> reads s' = reads s + 1"
  by (induction k opts ev s rule: selectCase.induct) (auto simp: Let_def split: if_splits)

lemma watchLoop_out:
  "\<exists>ds. out (snd (watchLoop k opts es s)) = out s @ ds \<and> list_all isDelta ds
        \<and> reads s \<le> reads (snd (watchLoop k opts es s))
        \<and> (\<not> isAbort (fst (watchLoop k opts es s)) \<longrightarrow>
             length ds = (if verbose opts \<ge> 2
                          then reads (snd (watchLoop k opts es s)) - reads s else 0))"
proof (induction es arbitrary: s)
  case Nil
  show ?case by simp
next
  case (Cons ev es)
  show ?case
  proof (cases "selectCase k opts ev s")
    case (Inl p)
    obtain err s' where p: "p = (err, s')" by (cases p)
    with Inl selectCase_Inl_out [of k opts ev s err s'] show ?thesis by simp
  next
    case (Inr s')
    from selectCase_Inr_out [OF Inr] obtain ds1 where
      d1: "out s' = out s @ ds1" "list_all isDelta ds1" "reads s \<le> reads s'"
          "length ds1 = (if verbose opts \<ge> 2 then reads s' - reads s else 0)"
      by blast
    show ?thesis
    proof (cases "doneFlag s' \<or> (maxRuns opts > 0 \<and> iterCount s' \<ge> maxRuns opts)")
      case True
      with Inr d1 show ?thesis by auto
    next
      case False
      let ?s2 = "s'\<lparr>iterCount := wrap64 (iterCount s' + 1)\<rparr>"
      let ?r = "watchLoop k opts es ?s2"
      from Cons.IH [of ?s2] obtain ds2 where
        d2: "out (snd ?r) = out ?s2 @ ds2" "list_all isDelta ds2" "reads ?s2 \<le> reads (snd ?r)"
            "\<not> isAbort (fst ?r) \<longrightarrow>
               length ds2 = (if verbose opts \<ge> 2 then reads (snd ?r) - reads ?s2 else 0)"
        by blast
      have eq: "watchLoop k opts (ev # es) s = ?r"
        using Inr False by auto
      have "out (snd ?r) = out s @ (ds1 @ ds2)" using d1 d2 by simp
      moreover have "list_all isDelta (ds1 @ ds2)" using d1 d2 by simp
      moreover have "reads s \<le> reads (snd ?r)" using d1 d2 by simp
      moreover have "\<not> isAbort (fst ?r) \<longrightarrow>
          length (ds1 @ ds2) = (if verbose opts \<ge> 2 then reads (snd ?r) - reads s else 0)"
        using d1 d2 by auto
      ultimately show ?thesis unfolding eq by blast
    qed
  qed
qed


section \<open>Runs that do not sample\<close>


text \<open>
  Claim C1, as amended. A run configured with the maximum iteration count 0 returns at
  once with success: it makes no tick and no call of ReadStats at all, not even the first
  one, and it writes nothing, so no summary either.
\<close>

theorem maxRuns_zero_is_noop:
  "maxRuns opts = 0 \<Longrightarrow>
   watchIRQs w k opts = \<lparr>ret = Returned None, stdout = [], readCalls = 0\<rparr>"
  by (simp add: watchIRQs_def)

theorem maxRuns_zero_is_noop_witness:
  "maxRuns \<lparr>period = ''1s'', maxRuns = 0, verbose = 1\<rparr> = 0
   \<and> watchIRQs (exampleWorld [TickEv 1 (Inr exampleBaseline)]) (exampleKnit False)
        \<lparr>period = ''1s'', maxRuns = 0, verbose = 1\<rparr>
      = \<lparr>ret = Returned None, stdout = [], readCalls = 0\<rparr>"
proof -
  have h: "maxRuns \<lparr>period = ''1s'', maxRuns = 0, verbose = 1\<rparr> = 0" by simp
  from h maxRuns_zero_is_noop [OF h] show ?thesis by (rule conjI)
qed

text \<open>
  Claim C1 as stated fails: with the maximum iteration count 0 and verbosity 1 no summary
  is written, so the output is not the summary of the first snapshot against itself.
\<close>

theorem maxRuns_zero_summary_counterexample:
  "filter isSummary
     (stdout (watchIRQs (exampleWorld [TickEv 1 (Inr exampleBaseline)]) (exampleKnit False)
        \<lparr>period = ''1s'', maxRuns = 0, verbose = 1\<rparr>)) = []
   \<and> stdout (watchIRQs (exampleWorld [TickEv 1 (Inr exampleBaseline)]) (exampleKnit False)
        \<lparr>period = ''1s'', maxRuns = 0, verbose = 1\<rparr>)
      \<noteq> [dumpIrqSummaryText 5 0 exampleBaseline exampleBaseline [0]]"
  by (simp add: watchIRQs_def)

text \<open>
  Claim C4, as amended. With a sampling period that does not parse and a maximum iteration
  count other than 0, watchIRQs returns the parse error, having read no counters and
  written nothing: the loop does not start.
\<close>

theorem invalid_period_fails:
  assumes "parseDuration w (period opts) = Inl err" and "maxRuns opts \<noteq> 0"
  shows "watchIRQs w k opts = \<lparr>ret = Returned (Some err), stdout = [], readCalls = 0\<rparr>"
  using assms by (simp add: watchIRQs_def)

theorem invalid_period_fails_witness:
  "parseDuration (exampleWorld [TickEv 1 (Inr exampleBaseline)])
       (period \<lparr>period = ''bogus'', maxRuns = 3, verbose = 1\<rparr>)
     = Inl (Error (''time: invalid duration '' @ CHR 0x22 # ''bogus'' @ [CHR 0x22]))
   \<and> maxRuns \<lparr>period = ''bogus'', maxRuns = 3, verbose = 1\<rparr> \<noteq> 0
   \<and> watchIRQs (exampleWorld [TickEv 1 (Inr exampleBaseline)]) (exampleKnit False)
        \<lparr>period = ''bogus'', maxRuns = 3, verbose = 1\<rparr>
      = \<lparr>ret = Returned
                 (Some (Error (''time: invalid duration '' @ CHR 0x22 # ''bogus'' @ [CHR 0x22]))),
         stdout = [], readCalls = 0\<rparr>"
proof -
  have h1: "parseDuration (exampleWorld [TickEv 1 (Inr exampleBaseline)])
               (period \<lparr>period = ''bogus'', maxRuns = 3, verbose = 1\<rparr>)
             = Inl (Error (''time: invalid duration '' @ CHR 0x22 # ''bogus'' @ [CHR 0x22]))"
    by (simp add: exampleWorld_def parseDurationSample_def)
  have h2: "maxRuns \<lparr>period = ''bogus'', maxRuns = 3, verbose = 1\<rparr> \<noteq> 0" by simp
  from h1 h2 invalid_period_fails [OF h1 h2] show ?thesis by blast
qed

text \<open>
  Claim C4 as stated fails: with the maximum iteration count 0 the period is never
  parsed, and the run returns success although its period is not a duration.
\<close>

theorem invalid_period_counterexample:
  "parseDuration (exampleWorld [TickEv 1 (Inr exampleBaseline)])
       (period \<lparr>period = ''bogus'', maxRuns = 0, verbose = 1\<rparr>)
     = Inl (Error (''time: invalid duration '' @ CHR 0x22 # ''bogus'' @ [CHR 0x22]))
   \<and> ret (watchIRQs (exampleWorld [TickEv 1 (Inr exampleBaseline)]) (exampleKnit False)
        \<lparr>period = ''bogus'', maxRuns = 0, verbose = 1\<rparr>) = Returned None"
  by (simp add: watchIRQs_def exampleWorld_def parseDurationSample_def)


section \<open>A read that fails in the loop\<close>


lemma watchIRQs_Waiting:
  assumes "ret (watchIRQs w k opts) = Waiting"
  obtains per st where "maxRuns opts \<noteq> 0" "parseDuration w (period opts) = Inr per" "0 < per"
    "readInit w = Inr st" "fst (watchLoop k opts (events w) (startState st)) = Pending"
  using assms
  by (auto simp: watchIRQs_def split: if_splits sum.splits prod.splits loopExit.splits)

lemma watchIRQs_sampling:
  assumes "maxRuns opts \<noteq> 0" "parseDuration w (period opts) = Inr per" "0 < per"
    "readInit w = Inr st"
  shows "watchIRQs w k opts =
     (case watchLoop k opts (events w) (startState st) of
        (Pending, s) \<Rightarrow> \<lparr>ret = Waiting, stdout = out s, readCalls = reads s\<rparr>
      | (Abort err, s) \<Rightarrow> \<lparr>ret = Returned (Some err), stdout = out s, readCalls = reads s\<rparr>
      | (Break, s) \<Rightarrow>
          \<lparr>ret = Returned None,
           stdout =
             (if verbose opts \<ge> 1 then
                (if jsonOutput k
                 then out s @ [dumpIrqSummaryJSON (clockEnd w) (clockInit w)
                                 (initStats s) (lastStats s) (cpus k)]
                 else out s @ [dumpIrqSummaryText (clockEnd w) (clockInit w)
                                 (initStats s) (lastStats s) (cpus k)])
              else out s),
           readCalls = reads s\<rparr>)"
  using assms by (simp add: watchIRQs_def)

lemma startState_out: "out (startState st) = []"
  by (simp add: startState_def)

text \<open>
  Claim C5. When a call of ReadStats in the loop fails, watchIRQs returns that error at
  once: ReadStats is not called again (one call more than before the failing tick,
  whatever events follow), no summary is written, and the output is what the ticks before
  the failure had written.
\<close>

theorem read_failure_aborts:
  assumes ev: "events w = pre @ TickEv t (Inl err) # post"
    and run: "ret (watchIRQs (w\<lparr>events := pre\<rparr>) k opts) = Waiting"
  shows "ret (watchIRQs w k opts) = Returned (Some err)
       \<and> stdout (watchIRQs w k opts) = stdout (watchIRQs (w\<lparr>events := pre\<rparr>) k opts)
       \<and> filter isSummary (stdout (watchIRQs w k opts)) = []
       \<and> readCalls (watchIRQs w k opts) = readCalls (watchIRQs (w\<lparr>events := pre\<rparr>) k opts) + 1"
proof -
  let ?w' = "w\<lparr>events := pre\<rparr>"
  from run obtain per st where
    c: "maxRuns opts \<noteq> 0" "parseDuration ?w' (period opts) = Inr per" "0 < per"
       "readInit ?w' = Inr st"
    and p: "fst (watchLoop k opts (events ?w') (startState st)) = Pending"
    by (rule watchIRQs_Waiting)
  obtain s where pre: "watchLoop k opts pre (startState st) = (Pending, s)"
    using p by (cases "watchLoop k opts pre (startState st)") simp
  from p pre have "watchLoop k opts (events w) (startState st)
      = watchLoop k opts (TickEv t (Inl err) # post) s"
    by (simp add: ev watchLoop_append)
  then have full: "watchLoop k opts (events w) (startState st)
      = (Abort err, s\<lparr>reads := reads s + 1\<rparr>)"
    by simp
  from c have c': "maxRuns opts \<noteq> 0" "parseDuration w (period opts) = Inr per" "0 < per"
       "readInit w = Inr st"
    by simp_all
  have r: "watchIRQs w k opts
      = \<lparr>ret = Returned (Some err), stdout = out s, readCalls = reads s + 1\<rparr>"
    by (simp add: watchIRQs_sampling [OF c'] full)
  have r': "watchIRQs ?w' k opts = \<lparr>ret = Waiting, stdout = out s, readCalls = reads s\<rparr>"
    by (simp add: watchIRQs_sampling [OF c] pre)
  from watchLoop_out [of k opts pre "startState st"] pre obtain ds where
    "out s = out (startState st) @ ds" "list_all isDelta ds"
    by auto
  then have "list_all isDelta (out s)" by (simp add: startState_out)
  then have "filter isSummary (out s) = []"
    by (auto simp: filter_empty_conv list_all_iff dest: isDelta_not_isSummary)
  with r r' show ?thesis by simp
qed

theorem read_failure_aborts_witness:
  "events (exampleWorld [TickEv 1 (Inr [(0, [(''16'', 12)])]), TickEv 2 (Inl (Error ''EIO'')),
                         TickEv 3 (Inr [(0, [(''16'', 15)])])])
     = [TickEv 1 (Inr [(0, [(''16'', 12)])])] @ TickEv 2 (Inl (Error ''EIO''))
         # [TickEv 3 (Inr [(0, [(''16'', 15)])])]
   \<and> ret (watchIRQs ((exampleWorld [TickEv 1 (Inr [(0, [(''16'', 12)])]), TickEv 2 (Inl (Error ''EIO'')),
                         TickEv 3 (Inr [(0, [(''16'', 15)])])])\<lparr>events := [TickEv 1 (Inr [(0, [(''16'', 12)])])]\<rparr>)
             (exampleKnit False) \<lparr>period = ''1s'', maxRuns = -1, verbose = 2\<rparr>) = Waiting
   \<and> watchIRQs (exampleWorld [TickEv 1 (Inr [(0, [(''16'', 12)])]), TickEv 2 (Inl (Error ''EIO'')),
                         TickEv 3 (Inr [(0, [(''16'', 15)])])])
             (exampleKnit False) \<lparr>period = ''1s'', maxRuns = -1, verbose = 2\<rparr>
       = \<lparr>ret = Returned (Some (Error ''EIO'')), stdout = [TextDelta 1 [(0, ''16'', 2)]],
          readCalls = 3\<rparr>"
proof -
  let ?w = "exampleWorld [TickEv 1 (Inr [(0, [(''16'', 12)])]), TickEv 2 (Inl (Error ''EIO'')),
                         TickEv 3 (Inr [(0, [(''16'', 15)])])]"
  let ?pre = "[TickEv 1 (Inr [(0, [(''16'', 12)])])]"
  let ?k = "exampleKnit False"
  let ?o = "\<lparr>period = ''1s'', maxRuns = -1, verbose = 2\<rparr>"
  have h1: "events ?w = ?pre @ TickEv 2 (Inl (Error ''EIO'')) # [TickEv 3 (Inr [(0, [(''16'', 15)])])]"
    by (simp add: exampleWorld_def)
  have pre: "watchIRQs (?w\<lparr>events := ?pre\<rparr>) ?k ?o
      = \<lparr>ret = Waiting, stdout = [TextDelta 1 [(0, ''16'', 2)]], readCalls = 2\<rparr>"
    by (simp add: watchIRQs_def exampleWorld_def exampleKnit_def exampleBaseline_def
        parseDurationSample_def startState_def Clone_def dumpIrqDeltaText_def Delta_def
        counterDelta_def wrap64_def)
  then have h2: "ret (watchIRQs (?w\<lparr>events := ?pre\<rparr>) ?k ?o) = Waiting" by simp
  from read_failure_aborts [OF h1 h2] pre
  have "watchIRQs ?w ?k ?o
       = \<lparr>ret = Returned (Some (Error ''EIO'')), stdout = [TextDelta 1 [(0, ''16'', 2)]],
          readCalls = 3\<rparr>"
    by (cases "watchIRQs ?w ?k ?o") simp
  with h1 h2 show ?thesis by blast
qed

section \<open>How many ticks a run makes\<close>

lemma wrap64_id: "- (2 ^ 63) \<le> x \<Longrightarrow> x < 2 ^ 63 \<Longrightarrow> wrap64 x = x"
  by (simp add: wrap64_def)

lemma selectCase_goodTick:
  assumes "goodTick ev"
  shows "\<exists>s'. selectCase k opts ev s = Inr s' \<and> reads s' = reads s + 1
            \<and> doneFlag s' = doneFlag s \<and> iterCount s' = iterCount s"
  using assms
  by (induction k opts ev s rule: selectCase.induct) (auto simp: Let_def)

lemma watchLoop_bounded:
  assumes "list_all goodTick es" "\<not> doneFlag s" "0 < maxRuns opts" "maxRuns opts < 2 ^ 63"
    "1 \<le> iterCount s" "iterCount s \<le> maxRuns opts"
  shows "fst (watchLoop k opts es s)
           = (if nat (maxRuns opts - iterCount s) < length es then Break else Pending)
       \<and> reads (snd (watchLoop k opts es s))
           = reads s + min (length es) (nat (maxRuns opts - iterCount s) + 1)"
  using assms
proof (induction es arbitrary: s)
  case Nil
  show ?case by simp
next
  case (Cons ev es)
  from Cons.prems have "goodTick ev" by simp
  from selectCase_goodTick [OF this, of k opts s] obtain s' where
    s': "selectCase k opts ev s = Inr s'" "reads s' = reads s + 1"
        "doneFlag s' = doneFlag s" "iterCount s' = iterCount s"
    by blast
  show ?case
  proof (cases "iterCount s \<ge> maxRuns opts")
    case True
    with s' Cons.prems show ?thesis by simp
  next
    case False
    let ?s2 = "s'\<lparr>iterCount := wrap64 (iterCount s' + 1)\<rparr>"
    have w: "wrap64 (iterCount s' + 1) = iterCount s + 1"
      using s' Cons.prems False by (simp add: wrap64_id)
    have step: "watchLoop k opts (ev # es) s = watchLoop k opts es ?s2"
      using s' Cons.prems False by simp
    have ih: "fst (watchLoop k opts es ?s2)
           = (if nat (maxRuns opts - iterCount ?s2) < length es then Break else Pending)
       \<and> reads (snd (watchLoop k opts es ?s2))
           = reads ?s2 + min (length es) (nat (maxRuns opts - iterCount ?s2) + 1)"
      using Cons.prems s' False w by (intro Cons.IH) simp_all
    have n: "nat (maxRuns opts - iterCount s) = Suc (nat (maxRuns opts - (iterCount s + 1)))"
      using False by simp
    show ?thesis
      unfolding step using ih s' w n by auto
  qed
qed

lemma watchLoop_unbounded:
  assumes "list_all goodTick es" "\<not> doneFlag s" "maxRuns opts \<le> 0"
  shows "fst (watchLoop k opts es s) = Pending
       \<and> reads (snd (watchLoop k opts es s)) = reads s + length es"
  using assms
proof (induction es arbitrary: s)
  case Nil
  show ?case by simp
next
  case (Cons ev es)
  from Cons.prems have "goodTick ev" by simp
  from selectCase_goodTick [OF this, of k opts s] obtain s' where
    s': "selectCase k opts ev s = Inr s'" "reads s' = reads s + 1"
        "doneFlag s' = doneFlag s" "iterCount s' = iterCount s"
    by blast
  let ?s2 = "s'\<lparr>iterCount := wrap64 (iterCount s' + 1)\<rparr>"
  have step: "watchLoop k opts (ev # es) s = watchLoop k opts es ?s2"
    using s' Cons.prems by simp
  have "fst (watchLoop k opts es ?s2) = Pending
       \<and> reads (snd (watchLoop k opts es ?s2)) = reads ?s2 + length es"
    using Cons.prems s' by (intro Cons.IH) simp_all
  then show ?case unfolding step using s' by simp
qed

text \<open>
  Claim C7. Take a run whose period parses to a positive duration and whose first read
  succeeds, and let every event be a tick whose read succeeds (no interrupt signal). With a
  maximum iteration count N > 0 (a Go int) the loop makes exactly N ticks and then the
  run returns: it has returned as soon as N ticks have arrived, it is still waiting before,
  and it calls ReadStats min(ticks arrived, N) times after the first read. With N = -1 the
  loop is unbounded: however many ticks arrive, each is read and the run is still waiting.
\<close>

theorem tick_count:
  assumes parse: "parseDuration w (period opts) = Inr per" "0 < per"
    and rd: "readInit w = Inr st"
    and good: "list_all goodTick (events w)"
  shows "(0 < maxRuns opts \<and> maxRuns opts < 2 ^ 63 \<longrightarrow>
            ret (watchIRQs w k opts)
              = (if nat (maxRuns opts) \<le> length (events w) then Returned None else Waiting)
          \<and> readCalls (watchIRQs w k opts) = 1 + min (length (events w)) (nat (maxRuns opts)))
       \<and> (maxRuns opts = -1 \<longrightarrow>
            ret (watchIRQs w k opts) = Waiting
          \<and> readCalls (watchIRQs w k opts) = 1 + length (events w))"
proof (intro conjI impI)
  assume n: "0 < maxRuns opts \<and> maxRuns opts < 2 ^ 63"
  obtain x s where l: "watchLoop k opts (events w) (startState st) = (x, s)"
    by (cases "watchLoop k opts (events w) (startState st)")
  have "fst (watchLoop k opts (events w) (startState st))
           = (if nat (maxRuns opts - iterCount (startState st)) < length (events w)
              then Break else Pending)
       \<and> reads (snd (watchLoop k opts (events w) (startState st)))
           = reads (startState st)
             + min (length (events w)) (nat (maxRuns opts - iterCount (startState st)) + 1)"
    using good n by (intro watchLoop_bounded) (simp_all add: startState_def)
  with l have x: "x = (if nat (maxRuns opts - 1) < length (events w) then Break else Pending)"
    and r: "reads s = 1 + min (length (events w)) (nat (maxRuns opts - 1) + 1)"
    by (simp_all add: startState_def)
  have e: "nat (maxRuns opts - 1) + 1 = nat (maxRuns opts)" using n by linarith
  from n have nz: "maxRuns opts \<noteq> 0" by simp
  show "ret (watchIRQs w k opts)
          = (if nat (maxRuns opts) \<le> length (events w) then Returned None else Waiting)"
    using x e by (auto simp: watchIRQs_sampling [OF nz parse rd] l)
  show "readCalls (watchIRQs w k opts) = 1 + min (length (events w)) (nat (maxRuns opts))"
    using x r e by (auto simp: watchIRQs_sampling [OF nz parse rd] l)
next
  assume n: "maxRuns opts = -1"
  obtain x s where l: "watchLoop k opts (events w) (startState st) = (x, s)"
    by (cases "watchLoop k opts (events w) (startState st)")
  have "fst (watchLoop k opts (events w) (startState st)) = Pending
       \<and> reads (snd (watchLoop k opts (events w) (startState st)))
           = reads (startState st) + length (events w)"
    using good n by (intro watchLoop_unbounded) (simp_all add: startState_def)
  with l have x: "x = Pending" and r: "reads s = 1 + length (events w)"
    by (simp_all add: startState_def)
  from n have nz: "maxRuns opts \<noteq> 0" by simp
  show "ret (watchIRQs w k opts) = Waiting"
    using x by (simp add: watchIRQs_sampling [OF nz parse rd] l)
  show "readCalls (watchIRQs w k opts) = 1 + length (events w)"
    using x r by (simp add: watchIRQs_sampling [OF nz parse rd] l)
qed

theorem tick_count_witness:
  "parseDuration (exampleWorld exampleTicks) (period \<lparr>period = ''1s'', maxRuns = 2, verbose = 1\<rparr>)
     = Inr 1000000000
   \<and> (0::int) < 1000000000
   \<and> readInit (exampleWorld exampleTicks) = Inr exampleBaseline
   \<and> list_all goodTick (events (exampleWorld exampleTicks))
   \<and> 0 < maxRuns \<lparr>period = ''1s'', maxRuns = 2, verbose = 1\<rparr>
   \<and> maxRuns \<lparr>period = ''1s'', maxRuns = 2, verbose = 1\<rparr> < 2 ^ 63
   \<and> ret (watchIRQs (exampleWorld exampleTicks) (exampleKnit False)
             \<lparr>period = ''1s'', maxRuns = 2, verbose = 1\<rparr>) = Returned None
   \<and> readCalls (watchIRQs (exampleWorld exampleTicks) (exampleKnit False)
             \<lparr>period = ''1s'', maxRuns = 2, verbose = 1\<rparr>) = 3
   \<and> maxRuns \<lparr>period = ''1s'', maxRuns = -1, verbose = 1\<rparr> = -1
   \<and> ret (watchIRQs (exampleWorld exampleTicks) (exampleKnit False)
             \<lparr>period = ''1s'', maxRuns = -1, verbose = 1\<rparr>) = Waiting
   \<and> readCalls (watchIRQs (exampleWorld exampleTicks) (exampleKnit False)
             \<lparr>period = ''1s'', maxRuns = -1, verbose = 1\<rparr>) = 4"
proof -
  let ?w = "exampleWorld exampleTicks"
  let ?o = "\<lparr>period = ''1s'', maxRuns = 2, verbose = 1\<rparr>"
  let ?u = "\<lparr>period = ''1s'', maxRuns = -1, verbose = 1\<rparr>"
  have h1: "parseDuration ?w (period ?o) = Inr 1000000000"
    by (simp add: exampleWorld_def parseDurationSample_def)
  have h1': "parseDuration ?w (period ?u) = Inr 1000000000"
    by (simp add: exampleWorld_def parseDurationSample_def)
  have h2: "(0::int) < 1000000000" by simp
  have h3: "readInit ?w = Inr exampleBaseline" by (simp add: exampleWorld_def)
  have h4: "list_all goodTick (events ?w)" by (simp add: exampleWorld_def exampleTicks_def)
  have h5: "0 < maxRuns ?o \<and> maxRuns ?o < 2 ^ 63" by simp
  have h6: "maxRuns ?u = -1" by simp
  have len: "length (events ?w) = 3" by (simp add: exampleWorld_def exampleTicks_def)
  from tick_count [OF h1 h2 h3 h4, of "exampleKnit False"] h5 len
  have a: "ret (watchIRQs ?w (exampleKnit False) ?o) = Returned None
         \<and> readCalls (watchIRQs ?w (exampleKnit False) ?o) = 3"
    by simp
  from tick_count [OF h1' h2 h3 h4, of "exampleKnit False"] h6 len
  have b: "ret (watchIRQs ?w (exampleKnit False) ?u) = Waiting
         \<and> readCalls (watchIRQs ?w (exampleKnit False) ?u) = 4"
    by simp
  from h1 h2 h3 h4 h5 h6 a b show ?thesis by blast
qed

section \<open>Verbosity\<close>

lemma watchIRQs_not_failed:
  assumes "maxRuns opts \<noteq> 0"
    and "ret (watchIRQs w k opts) = Waiting \<or> ret (watchIRQs w k opts) = Returned None"
  obtains per st where "parseDuration w (period opts) = Inr per" "0 < per"
    "readInit w = Inr st" "\<not> isAbort (fst (watchLoop k opts (events w) (startState st)))"
  using assms
  by (auto simp: watchIRQs_def split: if_splits sum.splits prod.splits loopExit.splits)















section \<open>The first snapshot\<close>

lemma startState_initStats: "initStats (startState st) = st"
  by (simp add: startState_def)

text \<open>
  Claim C9. The first snapshot, the left endpoint of the summary, is never changed during
  the run. The loop is entered with prevStats a clone of initStats; the ticks reassign
  only lastStats and prevStats, and no statement writes into a snapshot, so after any
  number of events initStats is still what the first read returned, and the summary of a
  run that leaves its loop is made from that snapshot.
\<close>

theorem baseline_is_kept:
  assumes rd: "readInit w = Inr st"
  shows "prevStats (startState st) = Clone (initStats (startState st))
       \<and> initStats (snd (watchLoop k opts (take n (events w)) (startState st))) = st
       \<and> (maxRuns opts \<noteq> 0 \<and> ret (watchIRQs w k opts) = Returned None \<and> 1 \<le> verbose opts
            \<longrightarrow> last (stdout (watchIRQs w k opts))
                = (if jsonOutput k
                   then dumpIrqSummaryJSON (clockEnd w) (clockInit w) st
                          (lastStats (snd (watchLoop k opts (events w) (startState st)))) (cpus k)
                   else dumpIrqSummaryText (clockEnd w) (clockInit w) st
                          (lastStats (snd (watchLoop k opts (events w) (startState st)))) (cpus k)))"
proof (intro conjI impI)
  show "prevStats (startState st) = Clone (initStats (startState st))"
    by (simp add: startState_def)
  show "initStats (snd (watchLoop k opts (take n (events w)) (startState st))) = st"
    by (simp add: watchLoop_initStats startState_initStats)
next
  assume a: "maxRuns opts \<noteq> 0 \<and> ret (watchIRQs w k opts) = Returned None \<and> 1 \<le> verbose opts"
  then have nz: "maxRuns opts \<noteq> 0"
    and ok: "ret (watchIRQs w k opts) = Waiting \<or> ret (watchIRQs w k opts) = Returned None"
    by simp_all
  from nz ok obtain per st' where
    c: "parseDuration w (period opts) = Inr per" "0 < per" "readInit w = Inr st'"
    by (rule watchIRQs_not_failed)
  from c rd have c': "parseDuration w (period opts) = Inr per" "0 < per" "readInit w = Inr st"
    by simp_all
  obtain x s where l: "watchLoop k opts (events w) (startState st) = (x, s)"
    by (cases "watchLoop k opts (events w) (startState st)")
  have i: "initStats s = st"
    using watchLoop_initStats [of k opts "events w" "startState st"] l
    by (simp add: startState_initStats)
  from a have "x = Break"
    by (cases x) (simp_all add: watchIRQs_sampling [OF nz c'] l)
  with a i show "last (stdout (watchIRQs w k opts))
                = (if jsonOutput k
                   then dumpIrqSummaryJSON (clockEnd w) (clockInit w) st
                          (lastStats (snd (watchLoop k opts (events w) (startState st)))) (cpus k)
                   else dumpIrqSummaryText (clockEnd w) (clockInit w) st
                          (lastStats (snd (watchLoop k opts (events w) (startState st)))) (cpus k))"
    by (simp add: watchIRQs_sampling [OF nz c'] l)
qed

theorem baseline_is_kept_witness:
  "readInit (exampleWorld exampleTicks) = Inr exampleBaseline
   \<and> prevStats (snd (watchLoop (exampleKnit True) \<lparr>period = ''1s'', maxRuns = 3, verbose = 1\<rparr>
                       (take 2 (events (exampleWorld exampleTicks))) (startState exampleBaseline)))
       = [(0, [(''16'', 12)])]
   \<and> initStats (snd (watchLoop (exampleKnit True) \<lparr>period = ''1s'', maxRuns = 3, verbose = 1\<rparr>
                       (take 2 (events (exampleWorld exampleTicks))) (startState exampleBaseline)))
       = exampleBaseline
   \<and> maxRuns \<lparr>period = ''1s'', maxRuns = 3, verbose = 1\<rparr> \<noteq> 0
   \<and> ret (watchIRQs (exampleWorld exampleTicks) (exampleKnit True)
            \<lparr>period = ''1s'', maxRuns = 3, verbose = 1\<rparr>) = Returned None
   \<and> 1 \<le> verbose \<lparr>period = ''1s'', maxRuns = 3, verbose = 1\<rparr>
   \<and> last (stdout (watchIRQs (exampleWorld exampleTicks) (exampleKnit True)
            \<lparr>period = ''1s'', maxRuns = 3, verbose = 1\<rparr>))
       = dumpIrqSummaryJSON 5 0 exampleBaseline [(0, [(''16'', 15)])] [0]"
proof -
  let ?w = "exampleWorld exampleTicks"
  let ?k = "exampleKnit True"
  let ?o = "\<lparr>period = ''1s'', maxRuns = 3, verbose = 1\<rparr>"
  have h: "readInit ?w = Inr exampleBaseline" by (simp add: exampleWorld_def)
  have p: "prevStats (snd (watchLoop ?k ?o (take 2 (events ?w)) (startState exampleBaseline)))
             = [(0, [(''16'', 12)])]"
    by (simp add: exampleWorld_def exampleTicks_def startState_def wrap64_def)
  have l: "lastStats (snd (watchLoop ?k ?o (events ?w) (startState exampleBaseline)))
             = [(0, [(''16'', 15)])]"
    by (simp add: exampleWorld_def exampleTicks_def startState_def wrap64_def)
  have e: "clockEnd ?w = 5" "clockInit ?w = 0" "jsonOutput ?k" "cpus ?k = [0]"
    by (simp_all add: exampleWorld_def exampleKnit_def)
  have r: "maxRuns ?o \<noteq> 0 \<and> ret (watchIRQs ?w ?k ?o) = Returned None \<and> 1 \<le> verbose ?o"
    by (simp add: watchIRQs_def exampleWorld_def exampleTicks_def exampleKnit_def
        parseDurationSample_def startState_def wrap64_def)
  from baseline_is_kept [OF h, of ?k ?o 2] r l e
  have "initStats (snd (watchLoop ?k ?o (take 2 (events ?w)) (startState exampleBaseline)))
          = exampleBaseline
      \<and> last (stdout (watchIRQs ?w ?k ?o))
          = dumpIrqSummaryJSON 5 0 exampleBaseline [(0, [(''16'', 15)])] [0]"
    by simp
  with h p r show ?thesis by blast
qed

section \<open>What the records show, and the summary of a run without ticks\<close>

lemma dumpIrqDeltaText_nonzero:
  "(cpuid, irqName, val) \<in> set (shownCounts (dumpIrqDeltaText ts prevS lastS cs)) \<Longrightarrow> val \<noteq> 0"
  by (auto simp: dumpIrqDeltaText_def Let_def split: option.splits)

lemma dumpIrqSummaryText_nonzero:
  "(cpuid, irqName, val) \<in> set (shownCounts (dumpIrqSummaryText now ts prevS lastS cs))
   \<Longrightarrow> val \<noteq> 0"
  by (auto simp: dumpIrqSummaryText_def Let_def split: option.splits)

text \<open>
  Claim C3 fails on the JSON path. The text presenters skip the zero counts (the two
  lemmas above), but countersForCPUs, which prepares the JSON records, only drops the CPUs
  outside the set and those with no counter at all. A tick at which the counter did not
  move is written with the count 0, in the per-tick record and in the summary.
\<close>

theorem json_records_keep_zero_counts:
  "stdout (watchIRQs (exampleWorld [TickEv 1 (Inr exampleBaseline)]) (exampleKnit True)
             \<lparr>period = ''1s'', maxRuns = 1, verbose = 2\<rparr>)
     = [JSONDelta 1 [(0, [(''16'', 0)])], JSONSummary 5 [(0, [(''16'', 0)])]]
   \<and> shownCounts (JSONDelta 1 [(0, [(''16'', 0)])]) = [(0, ''16'', 0)]
   \<and> shownCounts (JSONSummary 5 [(0, [(''16'', 0)])]) = [(0, ''16'', 0)]
   \<and> stdout (watchIRQs (exampleWorld [TickEv 1 (Inr exampleBaseline)]) (exampleKnit False)
             \<lparr>period = ''1s'', maxRuns = 1, verbose = 2\<rparr>)
     = [TextDelta 1 [], TextSummary [0] 5 []]"
  by (simp add: watchIRQs_def exampleWorld_def exampleKnit_def exampleBaseline_def
      parseDurationSample_def startState_def Clone_def wrap64_def
      dumpIrqDeltaJSON_def dumpIrqSummaryJSON_def dumpIrqDeltaText_def dumpIrqSummaryText_def
      countersForCPUs_def Delta_def counterDelta_def statsEntries_def)

text \<open>
  Which snapshot the summary is made against: a tick with a successful read makes that
  snapshot lastStats, and the interrupt signal leaves the loop with lastStats as it was.
\<close>

lemma watchLoop_lastStats_tick:
  assumes "fst (watchLoop k opts pre s) = Pending"
  shows "lastStats (snd (watchLoop k opts (pre @ [TickEv t (Inr st)]) s)) = st"
  using assms by (simp add: watchLoop_append Let_def)

lemma watchLoop_Signal:
  assumes "fst (watchLoop k opts pre s) = Pending"
  shows "watchLoop k opts (pre @ Signal # post) s
           = (Break, (snd (watchLoop k opts pre s))\<lparr>doneFlag := True\<rparr>)"
  using assms by (simp add: watchLoop_append)

text \<open>
  Claim C2 fails when the interrupt signal comes before the first tick. The loop is left
  with lastStats still the nil map it was declared as, and the summary is made from
  initStats and that nil map, not from the first snapshot twice: the JSON summary is
  empty, where the first snapshot against itself gives the count 0 for its interrupt line.
\<close>

theorem summary_before_first_tick_uses_nil:
  "ret (watchIRQs (exampleWorld [Signal]) (exampleKnit True)
             \<lparr>period = ''1s'', maxRuns = -1, verbose = 1\<rparr>) = Returned None
   \<and> lastStats (snd (watchLoop (exampleKnit True) \<lparr>period = ''1s'', maxRuns = -1, verbose = 1\<rparr>
                        [Signal] (startState exampleBaseline))) = []
   \<and> stdout (watchIRQs (exampleWorld [Signal]) (exampleKnit True)
             \<lparr>period = ''1s'', maxRuns = -1, verbose = 1\<rparr>)
       = [dumpIrqSummaryJSON 5 0 exampleBaseline [] [0]]
   \<and> dumpIrqSummaryJSON 5 0 exampleBaseline [] [0] = JSONSummary 5 []
   \<and> dumpIrqSummaryJSON 5 0 exampleBaseline exampleBaseline [0]
       = JSONSummary 5 [(0, [(''16'', 0)])]"
  by (simp add: watchIRQs_def exampleWorld_def exampleKnit_def exampleBaseline_def
      parseDurationSample_def startState_def Clone_def
      dumpIrqSummaryJSON_def countersForCPUs_def Delta_def counterDelta_def)

text \<open>
  Claim C6 fails at the same place. With a maximum of 3 iterations and the interrupt
  signal first, the only successful read of the run is the first one (one call of
  ReadStats), so the last successfully read snapshot is the first snapshot; the summary
  written is not the delta from the first snapshot to it, but the empty delta to the nil
  map.
\<close>

theorem summary_not_to_last_read:
  "readCalls (watchIRQs (exampleWorld (Signal # exampleTicks)) (exampleKnit True)
             \<lparr>period = ''500ms'', maxRuns = 3, verbose = 1\<rparr>) = 1
   \<and> stdout (watchIRQs (exampleWorld (Signal # exampleTicks)) (exampleKnit True)
             \<lparr>period = ''500ms'', maxRuns = 3, verbose = 1\<rparr>)
       = [JSONSummary 5 (countersForCPUs [0] (Delta exampleBaseline []))]
   \<and> countersForCPUs [0] (Delta exampleBaseline [])
       \<noteq> countersForCPUs [0] (Delta exampleBaseline exampleBaseline)"
  by (simp add: watchIRQs_def exampleWorld_def exampleKnit_def exampleBaseline_def
      parseDurationSample_def startState_def Clone_def
      dumpIrqSummaryJSON_def countersForCPUs_def Delta_def counterDelta_def)

end
